theory Spec2Isabelle
  imports Complex_Main "HOL-Library.Sublist"
begin

section \<open>JavaScript values used by the categoriser\<close>

text \<open>
  The program is a single TypeScript module. A JavaScript string is a sequence of 16-bit
  code units; the model covers the strings whose code units are below 256, one
  \<^typ>\<open>char\<close> each, with the letters and the white space of that range. Numbers are IEEE
  doubles in the source; the model keeps the finite ones as exact reals and the three
  non-finite ones as constructors of their own, so rounding of the least significant bit
  is not modelled.
\<close>

datatype jsnumber = Fin real | NaN | PosInf | NegInf

text \<open>
  \<^verbatim>\<open>String.prototype.toLowerCase\<close>: below 256 the capital letters are A to Z and the
  code units 192 to 222 but for the multiplication sign 215; each has its small letter 32
  above.
\<close>

definition lower_char :: "char \<Rightarrow> char" where
  "lower_char c =
     (let n = (of_char c :: nat) in
      if (65 \<le> n \<and> n \<le> 90) \<or> (192 \<le> n \<and> n \<le> 222 \<and> n \<noteq> 215)
      then char_of (n + 32) else c)"

definition toLowerCase :: "string \<Rightarrow> string" where
  "toLowerCase s = map lower_char s"

text \<open>\<^verbatim>\<open>hay.includes(needle)\<close>: the needle occurs in the hay as a contiguous block.\<close>

fun includes_str :: "string \<Rightarrow> string \<Rightarrow> bool" where
  "includes_str [] needle = (needle = [])"
| "includes_str (h # hs) needle = (prefix needle (h # hs) \<or> includes_str hs needle)"

section \<open>The data model\<close>

text \<open>
  \<^verbatim>\<open>type LMCategory = { id: number; name: string; description?: string | null;
  archived?: boolean; is_group?: boolean; group_id?: number | null }\<close>.
  An optional flag that is missing is falsy, so it is \<open>False\<close> here.
\<close>

record LMCategory =
  id_cat :: int
  name_cat :: string
  description :: "string option"
  archived :: bool
  is_group :: bool
  group_id :: "int option"

text \<open>
  \<^verbatim>\<open>type CategorySuggestion = { name: string; justification?: string;
  confidence?: number | null }\<close>.
\<close>

record CategorySuggestion =
  name_sug :: string
  justification :: "string option"
  confidence :: "jsnumber option"

section \<open>Category matching and validation\<close>

text \<open>
  \<^verbatim>\<open>matchCategoryId(name, categories)\<close> returns a number or null and may write one
  warning to the console; the model returns both, the console lines as a list.
\<close>

definition fuzzy_warning :: "string \<Rightarrow> string \<Rightarrow> string" where
  "fuzzy_warning nm found_name =
     ''Category suggestion \"'' @ nm @ ''\" did not match exactly. Using \"'' @ found_name
       @ ''\" instead.''"

definition matchCategoryId :: "string \<Rightarrow> LMCategory list \<Rightarrow> int option \<times> string list" where
  "matchCategoryId nm categories =
     (case find (\<lambda>c. name_cat c = nm) categories of
        Some found \<Rightarrow> (Some (id_cat found), [])
      | None \<Rightarrow>
         (case find (\<lambda>c. toLowerCase (name_cat c) = toLowerCase nm) categories of
            Some found \<Rightarrow> (Some (id_cat found), [])
          | None \<Rightarrow>
             (let lo = toLowerCase nm in
              case find (\<lambda>c. includes_str (toLowerCase (name_cat c)) lo
                                \<or> includes_str lo (toLowerCase (name_cat c))) categories of
                Some found \<Rightarrow> (Some (id_cat found), [fuzzy_warning nm (name_cat found)])
              | None \<Rightarrow> (None, []))))"

definition invalid_warning :: "string \<Rightarrow> string" where
  "invalid_warning nm =
     ''Invalid category suggestion: \"'' @ nm @ ''\" is not in the category list''"

text \<open>
  \<^verbatim>\<open>validateCategorySuggestions\<close> filters with a \<^verbatim>\<open>Set\<close> of the category names and
  warns once for each suggestion it drops.
\<close>

definition validCategoryNames :: "LMCategory list \<Rightarrow> string set" where
  "validCategoryNames categories = set (map name_cat categories)"

definition validateCategorySuggestions ::
  "CategorySuggestion list \<Rightarrow> LMCategory list \<Rightarrow> CategorySuggestion list \<times> string list" where
  "validateCategorySuggestions suggestions categories =
     (filter (\<lambda>s. name_sug s \<in> validCategoryNames categories) suggestions,
      map (\<lambda>s. invalid_warning (name_sug s))
        (filter (\<lambda>s. name_sug s \<notin> validCategoryNames categories) suggestions))"

text \<open>
  The approval dialog preselects the top suggestion:
  \<^verbatim>\<open>const preId = suggestions?.[0]?.name ? matchCategoryId(suggestions[0].name, categories) : null\<close>.
  An empty name is falsy, so it preselects nothing.
\<close>

definition preId :: "CategorySuggestion list \<Rightarrow> LMCategory list \<Rightarrow> int option" where
  "preId suggestions categories =
     (case suggestions of
        [] \<Rightarrow> None
      | s # _ \<Rightarrow> if name_sug s \<noteq> [] then fst (matchCategoryId (name_sug s) categories) else None)"

subsection \<open>Reading the matcher's tiers position by position\<close>

text \<open>
  \<open>first_hit P xs i\<close>: position \<open>i\<close> holds the first element of \<open>xs\<close>, in iteration
  order, that satisfies \<open>P\<close>. The three predicates are the three tiers' tests, the
  substring test written with the library's \<^const>\<open>sublist\<close>.
\<close>

definition first_hit :: "('a \<Rightarrow> bool) \<Rightarrow> 'a list \<Rightarrow> nat \<Rightarrow> bool" where
  "first_hit P xs i \<longleftrightarrow> i < length xs \<and> P (xs ! i) \<and> (\<forall>j<i. \<not> P (xs ! j))"

definition name_equal :: "string \<Rightarrow> LMCategory \<Rightarrow> bool" where
  "name_equal q c \<longleftrightarrow> name_cat c = q"

definition name_equal_ci :: "string \<Rightarrow> LMCategory \<Rightarrow> bool" where
  "name_equal_ci q c \<longleftrightarrow> toLowerCase (name_cat c) = toLowerCase q"

definition name_overlaps :: "string \<Rightarrow> LMCategory \<Rightarrow> bool" where
  "name_overlaps q c \<longleftrightarrow>
     sublist (toLowerCase q) (toLowerCase (name_cat c)) \<or>
     sublist (toLowerCase (name_cat c)) (toLowerCase q)"

subsection \<open>Sample categories and suggestions\<close>

definition groceries :: LMCategory where
  "groceries = \<lparr>id_cat = 1, name_cat = ''Groceries'', description = None, archived = False,
     is_group = False, group_id = None\<rparr>"

definition gas_transportation :: LMCategory where
  "gas_transportation = \<lparr>id_cat = 2, name_cat = ''Gas, Transportation'', description = None,
     archived = False, is_group = False, group_id = None\<rparr>"

definition unnamed_category :: LMCategory where
  "unnamed_category = \<lparr>id_cat = 1, name_cat = [], description = None, archived = False,
     is_group = False, group_id = None\<rparr>"

definition gas_suggestion :: CategorySuggestion where
  "gas_suggestion = \<lparr>name_sug = ''Gas'', justification = Some ''Fuel purchase'',
     confidence = Some (Fin (9 / 10))\<rparr>"

definition groceries_suggestion :: CategorySuggestion where
  "groceries_suggestion = \<lparr>name_sug = ''Groceries'', justification = None,
     confidence = Some (Fin (9 / 10))\<rparr>"

definition unnamed_suggestion :: CategorySuggestion where
  "unnamed_suggestion = \<lparr>name_sug = [], justification = None, confidence = None\<rparr>"

section \<open>Prompt building\<close>

text \<open>
  \<^verbatim>\<open>String.prototype.trim\<close> strips white space and line terminators from both ends;
  below 256 these are tab, line feed, vertical tab, form feed, carriage return, space and
  the no-break space 160. The class \<^verbatim>\<open>\s\<close> of a regular expression is the same set.
\<close>

definition is_space :: "char \<Rightarrow> bool" where
  "is_space c \<longleftrightarrow> (of_char c :: nat) \<in> {9, 10, 11, 12, 13, 32, 160}"

definition trim :: "string \<Rightarrow> string" where
  "trim s = rev (dropWhile is_space (rev (dropWhile is_space s)))"

text \<open>\<^verbatim>\<open>Array.prototype.join\<close> on an array of strings.\<close>

fun join :: "string \<Rightarrow> string list \<Rightarrow> string" where
  "join sep [] = []"
| "join sep [x] = x"
| "join sep (x # y # ys) = x @ sep @ join sep (y # ys)"

text \<open>
  A category id inside a template literal is printed in decimal; the ids of the ledger
  are integers.
\<close>

fun show_nat :: "nat \<Rightarrow> string" where
  "show_nat n =
     (if n < 10 then [char_of (48 + n)] else show_nat (n div 10) @ [char_of (48 + n mod 10)])"

declare show_nat.simps [simp del]

definition show_int :: "int \<Rightarrow> string" where
  "show_int i = (if i < 0 then ''-'' @ show_nat (nat (- i)) else show_nat (nat i))"

definition newline :: string where
  "newline = [CHR 0x0A]"









definition gas :: LMCategory where
  "gas = \<lparr>id_cat = 1, name_cat = ''Gas'', description = None, archived = False,
     is_group = False, group_id = None\<rparr>"



section \<open>The confidence badge of the approval dialog\<close>







section \<open>Reading the model's answer\<close>

text \<open>
  The value \<^verbatim>\<open>JSON.parse\<close> returns. The members of an object are kept in the order of
  the text; a later member of the same key replaces an earlier one, so a lookup reads the
  members from the end.
\<close>

datatype json =
    JNull
  | JBool bool
  | JNum jsnumber
  | JStr string
  | JArr "json list"
  | JObj "(string \<times> json) list"

text \<open>
  \<^verbatim>\<open>JSON.parse\<close> and the printing of a number as a string belong to the JavaScript
  engine, not to the program; the model takes them as parameters. \<open>JSON_parse\<close> answers
  \<open>None\<close> where the engine throws a \<^verbatim>\<open>SyntaxError\<close>.
\<close>

record platform =
  JSON_parse :: "string \<Rightarrow> json option"
  Number_toString :: "jsnumber \<Rightarrow> string"

text \<open>
  A property read \<^verbatim>\<open>v?.key\<close> for the keys the program reads (\<^verbatim>\<open>suggestions\<close>,
  \<^verbatim>\<open>name\<close>, \<^verbatim>\<open>justification\<close>, \<^verbatim>\<open>confidence\<close>): only an object can have one;
  \<open>None\<close> is \<^verbatim>\<open>undefined\<close>.
\<close>

fun get_prop :: "json \<Rightarrow> string \<Rightarrow> json option" where
  "get_prop (JObj members) k = map_of (rev members) k"
| "get_prop _ k = None"

text \<open>Truthiness of a parsed value, as a condition reads it.\<close>

fun truthy :: "json \<Rightarrow> bool" where
  "truthy JNull = False"
| "truthy (JBool b) = b"
| "truthy (JNum n) = (case n of Fin r \<Rightarrow> r \<noteq> 0 | NaN \<Rightarrow> False | _ \<Rightarrow> True)"
| "truthy (JStr s) = (s \<noteq> [])"
| "truthy (JArr _) = True"
| "truthy (JObj _) = True"

text \<open>
  \<^verbatim>\<open>String(v)\<close>: an array prints its elements separated by commas, a null element as
  nothing; a plain object prints as \<^verbatim>\<open>[object Object]\<close>.
\<close>

fun String_js :: "(jsnumber \<Rightarrow> string) \<Rightarrow> json \<Rightarrow> string" where
  "String_js nts JNull = ''null''"
| "String_js nts (JBool b) = (if b then ''true'' else ''false'')"
| "String_js nts (JNum n) = nts n"
| "String_js nts (JStr s) = s"
| "String_js nts (JArr xs) =
     join '','' (map (\<lambda>x. if x = JNull then [] else String_js nts x) xs)"
| "String_js nts (JObj _) = ''[object Object]''"

text \<open>
  The callback of \<^verbatim>\<open>arr.map\<close> in \<^verbatim>\<open>chooseCategoryOptions\<close>:
  \<^verbatim>\<open>name: String(s?.name ?? "").trim(),
  justification: s?.justification ? String(s.justification).trim() : undefined,
  confidence: typeof s?.confidence === "number" ? s.confidence : null\<close>
\<close>

definition coerce_suggestion :: "(jsnumber \<Rightarrow> string) \<Rightarrow> json \<Rightarrow> CategorySuggestion" where
  "coerce_suggestion nts s =
     \<lparr>name_sug =
        trim (String_js nts
          (case get_prop s ''name'' of None \<Rightarrow> JStr [] | Some JNull \<Rightarrow> JStr [] | Some v \<Rightarrow> v)),
      justification =
        (case get_prop s ''justification'' of
           None \<Rightarrow> None
         | Some v \<Rightarrow> if truthy v then Some (trim (String_js nts v)) else None),
      confidence =
        (case get_prop s ''confidence'' of Some (JNum n) \<Rightarrow> Some n | _ \<Rightarrow> None)\<rparr>"

text \<open>
  \<^verbatim>\<open>const arr = Array.isArray(parsed?.suggestions) ? parsed.suggestions : [];
  return arr.map(...).filter(s => s.name.length > 0).slice(0, 3);\<close>
\<close>

definition suggestions_array :: "json \<Rightarrow> json list" where
  "suggestions_array parsed =
     (case get_prop parsed ''suggestions'' of Some (JArr xs) \<Rightarrow> xs | _ \<Rightarrow> [])"

definition read_suggestions :: "(jsnumber \<Rightarrow> string) \<Rightarrow> json \<Rightarrow> CategorySuggestion list" where
  "read_suggestions nts parsed =
     take 3 (filter (\<lambda>s. length (name_sug s) > 0)
       (map (coerce_suggestion nts) (suggestions_array parsed)))"

subsection \<open>Finding the JSON text\<close>

text \<open>
  \<^verbatim>\<open>const m = /```(?:json)?\s*([\s\S]*?)\s*```/i.exec(raw);\<close>
  The match starts at the first run of three backquotes. After it the expression takes
  the tag \<^verbatim>\<open>json\<close> in any case when it is there, then all white space, and captures
  the shortest text after which white space and three backquotes follow. Giving back the
  tag or some of the white space never finds a match the greedy choice misses, and a
  later start needs a closing fence the first start would have found, so the
  backtracking of the engine is not modelled.
\<close>

definition fence :: string where
  "fence = replicate 3 (CHR 0x60)"

fun after_fence :: "string \<Rightarrow> string option" where
  "after_fence [] = None"
| "after_fence (c # cs) =
     (if prefix fence (c # cs) then Some (drop 3 (c # cs)) else after_fence cs)"

definition skip_json_tag :: "string \<Rightarrow> string" where
  "skip_json_tag s = (if toLowerCase (take 4 s) = ''json'' then drop 4 s else s)"

fun capture_until_close :: "string \<Rightarrow> string option" where
  "capture_until_close [] = None"
| "capture_until_close (c # cs) =
     (if prefix fence (dropWhile is_space (c # cs)) then Some []
      else map_option ((#) c) (capture_until_close cs))"

definition fence_match :: "string \<Rightarrow> string option" where
  "fence_match raw =
     (case after_fence raw of
        None \<Rightarrow> None
      | Some rest \<Rightarrow> capture_until_close (dropWhile is_space (skip_json_tag rest)))"

text \<open>\<^verbatim>\<open>indexOf\<close> and \<^verbatim>\<open>lastIndexOf\<close> of one character; \<open>-1\<close> when it is absent.\<close>

fun indexOf :: "string \<Rightarrow> char \<Rightarrow> int" where
  "indexOf [] c = - 1"
| "indexOf (x # xs) c =
     (if x = c then 0 else (let i = indexOf xs c in if i < 0 then - 1 else i + 1))"

definition lastIndexOf :: "string \<Rightarrow> char \<Rightarrow> int" where
  "lastIndexOf s c =
     (let i = indexOf (rev s) c in if i < 0 then - 1 else int (length s) - 1 - i)"

text \<open>\<^verbatim>\<open>s.slice(a, b)\<close> for \<open>0 \<le> a\<close> and \<open>0 \<le> b\<close>, the only use the program makes of it.\<close>

definition slice :: "string \<Rightarrow> int \<Rightarrow> int \<Rightarrow> string" where
  "slice s a b = take (nat b - nat a) (drop (nat a) s)"

text \<open>What a JavaScript \<^verbatim>\<open>throw\<close> carries here.\<close>

datatype js_error = Error string | SyntaxError

text \<open>
  The part of \<^verbatim>\<open>chooseCategoryOptions\<close> that follows the provider's answer, from
  \<^verbatim>\<open>const raw = content.trim()\<close> to the end. \<open>Inl\<close> is an exception leaving the
  function.
  \<^verbatim>\<open>try { parsed = JSON.parse(jsonText); }
  catch {
    const start = jsonText.indexOf("{"); const end = jsonText.lastIndexOf("}");
    if (start >= 0 && end > start) { parsed = JSON.parse(jsonText.slice(start, end + 1)); }
    else { return []; }
  }\<close>
\<close>

definition extract_suggestions :: "platform \<Rightarrow> string \<Rightarrow> js_error + CategorySuggestion list" where
  "extract_suggestions pf content =
     (let raw = trim content in
      if raw = [] then Inr []
      else
        (let jsonText = trim (case fence_match raw of Some m1 \<Rightarrow> m1 | None \<Rightarrow> raw) in
         case JSON_parse pf jsonText of
           Some parsed \<Rightarrow> Inr (read_suggestions (Number_toString pf) parsed)
         | None \<Rightarrow>
            (let start = indexOf jsonText (CHR ''{'');
                 last = lastIndexOf jsonText (CHR ''}'')
             in if start \<ge> 0 \<and> last > start then
                  (case JSON_parse pf (slice jsonText start (last + 1)) of
                     Some parsed \<Rightarrow> Inr (read_suggestions (Number_toString pf) parsed)
                   | None \<Rightarrow> Inl SyntaxError)
                else Inr [])))"

section \<open>A model of the engine's \<^verbatim>\<open>JSON.parse\<close>\<close>

text \<open>
  The theorems about the program hold for every \<^typ>\<open>platform\<close>. For the worked examples
  the grammar of JSON is modelled here: a lexer, then a parser that keeps the open arrays
  and objects on a stack and reads one token at a time. Code units are the 256 values of
  \<^typ>\<open>char\<close>, so an escape \<^verbatim>\<open>\uXXXX\<close> above \<^verbatim>\<open>00FF\<close> has no counterpart and is
  not accepted; numbers are exact, with no overflow to infinity.
\<close>

datatype token =
    TLBrace | TRBrace | TLBrack | TRBrack | TColon | TComma
  | TStr string | TNum jsnumber | TTrue | TFalse | TNull

definition is_json_ws :: "char \<Rightarrow> bool" where
  "is_json_ws c \<longleftrightarrow> (of_char c :: nat) \<in> {9, 10, 13, 32}"

definition is_digit :: "char \<Rightarrow> bool" where
  "is_digit c \<longleftrightarrow> 48 \<le> (of_char c :: nat) \<and> (of_char c :: nat) \<le> 57"

definition digit_val :: "char \<Rightarrow> nat" where
  "digit_val c = of_char c - 48"

definition nat_of_digits :: "string \<Rightarrow> nat" where
  "nat_of_digits ds = foldl (\<lambda>n c. 10 * n + digit_val c) 0 ds"

definition hex_val :: "char \<Rightarrow> nat option" where
  "hex_val c =
     (let n = (of_char c :: nat) in
      if 48 \<le> n \<and> n \<le> 57 then Some (n - 48)
      else if 65 \<le> n \<and> n \<le> 70 then Some (n - 55)
      else if 97 \<le> n \<and> n \<le> 102 then Some (n - 87)
      else None)"

definition hex4 :: "char \<Rightarrow> char \<Rightarrow> char \<Rightarrow> char \<Rightarrow> nat option" where
  "hex4 a b c d =
     (case (hex_val a, hex_val b, hex_val c, hex_val d) of
        (Some x, Some y, Some z, Some u) \<Rightarrow> Some (((x * 16 + y) * 16 + z) * 16 + u)
      | _ \<Rightarrow> None)"

definition unescape :: "char \<Rightarrow> char option" where
  "unescape e =
     (if e = CHR 0x22 then Some (CHR 0x22)
      else if e = CHR 0x5C then Some (CHR 0x5C)
      else if e = CHR ''/'' then Some (CHR ''/'')
      else if e = CHR ''b'' then Some (CHR 0x08)
      else if e = CHR ''f'' then Some (CHR 0x0C)
      else if e = CHR ''n'' then Some (CHR 0x0A)
      else if e = CHR ''r'' then Some (CHR 0x0D)
      else if e = CHR ''t'' then Some (CHR 0x09)
      else None)"

text \<open>
  What follows a backslash inside a string literal: the character it stands for and the
  text after the escape.
\<close>

definition lex_escape :: "string \<Rightarrow> (char \<times> string) option" where
  "lex_escape cs =
     (case cs of
        [] \<Rightarrow> None
      | e # r \<Rightarrow>
          if e = CHR ''u'' then
            (case r of
               h1 # h2 # h3 # h4 # r' \<Rightarrow>
                 (case hex4 h1 h2 h3 h4 of
                    None \<Rightarrow> None
                  | Some n \<Rightarrow> if n < 256 then Some (char_of n, r') else None)
             | _ \<Rightarrow> None)
          else map_option (\<lambda>x. (x, r)) (unescape e))"

text \<open>
  The text of a string literal after its opening quote, and what follows the closing one.
  The test on the lengths makes the recursion visibly terminate; it never fails
  (lemma \<open>lex_escape_shorter\<close>). The same holds for the two tests in \<open>tokenize\<close>.
\<close>

function lex_string :: "string \<Rightarrow> (string \<times> string) option" where
  "lex_string [] = None"
| "lex_string (c # cs) =
     (if c = CHR 0x22 then Some ([], cs)
      else if c = CHR 0x5C then
        (case lex_escape cs of
           None \<Rightarrow> None
         | Some (x, r) \<Rightarrow>
             if length r < length cs
             then map_option (\<lambda>(s, rest). (x # s, rest)) (lex_string r)
             else None)
      else if (of_char c :: nat) < 32 then None
      else map_option (\<lambda>(s, rest). (c # s, rest)) (lex_string cs))"
  by pat_completeness auto
termination
  by (relation "measure length") auto

text \<open>
  A number literal: an optional minus, an integer part with no leading zero, an optional
  fraction and an optional exponent. Each part answers what it read and the text after it.
\<close>

definition lex_sign :: "string \<Rightarrow> bool \<times> string" where
  "lex_sign s =
     (case s of [] \<Rightarrow> (False, []) | c # r \<Rightarrow> if c = CHR ''-'' then (True, r) else (False, s))"

definition lex_int_part :: "string \<Rightarrow> (nat \<times> string) option" where
  "lex_int_part s =
     (case s of
        [] \<Rightarrow> None
      | c # r \<Rightarrow>
          if c = CHR ''0'' then Some (0, r)
          else if is_digit c
          then Some (nat_of_digits (takeWhile is_digit s), dropWhile is_digit s)
          else None)"

definition lex_frac :: "string \<Rightarrow> (real \<times> string) option" where
  "lex_frac s =
     (case s of
        [] \<Rightarrow> Some (0, [])
      | c # r \<Rightarrow>
          if c = CHR ''.'' then
            (let fs = takeWhile is_digit r in
             if fs = [] then None
             else Some (real (nat_of_digits fs) / 10 ^ length fs, dropWhile is_digit r))
          else Some (0, s))"

definition lex_exp :: "string \<Rightarrow> (int \<times> string) option" where
  "lex_exp s =
     (case s of
        [] \<Rightarrow> Some (0, [])
      | c # r \<Rightarrow>
          if c = CHR ''e'' \<or> c = CHR ''E'' then
            (let neg = (r \<noteq> [] \<and> hd r = CHR ''-'');
                 signed = (r \<noteq> [] \<and> (hd r = CHR ''-'' \<or> hd r = CHR ''+''));
                 r1 = (if signed then tl r else r);
                 es = takeWhile is_digit r1
             in if es = [] then None
                else Some ((if neg then - int (nat_of_digits es) else int (nat_of_digits es)),
                           dropWhile is_digit r1))
          else Some (0, s))"

definition lex_number :: "string \<Rightarrow> (jsnumber \<times> string) option" where
  "lex_number s =
     (case lex_int_part (snd (lex_sign s)) of
        None \<Rightarrow> None
      | Some (whole, s2) \<Rightarrow>
         (case lex_frac s2 of
            None \<Rightarrow> None
          | Some (fraction, s3) \<Rightarrow>
             (case lex_exp s3 of
                None \<Rightarrow> None
              | Some (e, s4) \<Rightarrow>
                  (let mantissa = real whole + fraction;
                       scaled = (if e < 0 then mantissa / 10 ^ nat (- e)
                                 else mantissa * 10 ^ nat e)
                   in Some (Fin (if fst (lex_sign s) then - scaled else scaled), s4)))))"

function tokenize :: "string \<Rightarrow> token list option" where
  "tokenize [] = Some []"
| "tokenize (c # cs) =
     (if is_json_ws c then tokenize cs
      else if c = CHR ''{'' then map_option ((#) TLBrace) (tokenize cs)
      else if c = CHR ''}'' then map_option ((#) TRBrace) (tokenize cs)
      else if c = CHR ''['' then map_option ((#) TLBrack) (tokenize cs)
      else if c = CHR '']'' then map_option ((#) TRBrack) (tokenize cs)
      else if c = CHR '':'' then map_option ((#) TColon) (tokenize cs)
      else if c = CHR '','' then map_option ((#) TComma) (tokenize cs)
      else if c = CHR 0x22 then
        (case lex_string cs of
           None \<Rightarrow> None
         | Some (str, rest) \<Rightarrow>
             if length rest \<le> length cs then map_option ((#) (TStr str)) (tokenize rest)
             else None)
      else if c = CHR ''-'' \<or> is_digit c then
        (case lex_number (c # cs) of
           None \<Rightarrow> None
         | Some (n, rest) \<Rightarrow>
             if length rest \<le> length cs then map_option ((#) (TNum n)) (tokenize rest)
             else None)
      else if prefix ''true'' (c # cs) then map_option ((#) TTrue) (tokenize (drop 3 cs))
      else if prefix ''false'' (c # cs) then map_option ((#) TFalse) (tokenize (drop 4 cs))
      else if prefix ''null'' (c # cs) then map_option ((#) TNull) (tokenize (drop 3 cs))
      else None)"
  by pat_completeness auto
termination
  by (relation "measure length") auto

text \<open>
  The parser. A frame is an open array with its elements so far, or an open object with
  its members so far and the key that waits for its value.
\<close>

datatype frame = FArr "json list" | FObj "(string \<times> json) list" "string option"

datatype expect =
    EValue | EValueOrClose | EKeyOrClose | EKey | EColon | ECommaOrClose | EDone

datatype parser = Parser expect "frame list" "json option"

definition put_value :: "json \<Rightarrow> frame list \<Rightarrow> parser option" where
  "put_value v stack =
     (case stack of
        [] \<Rightarrow> Some (Parser EDone [] (Some v))
      | FArr xs # below \<Rightarrow> Some (Parser ECommaOrClose (FArr (xs @ [v]) # below) None)
      | FObj ms (Some k) # below \<Rightarrow>
          Some (Parser ECommaOrClose (FObj (ms @ [(k, v)]) None # below) None)
      | FObj ms None # below \<Rightarrow> None)"

definition close_array :: "frame list \<Rightarrow> parser option" where
  "close_array stack =
     (case stack of FArr xs # below \<Rightarrow> put_value (JArr xs) below | _ \<Rightarrow> None)"

definition close_object :: "frame list \<Rightarrow> parser option" where
  "close_object stack =
     (case stack of FObj ms None # below \<Rightarrow> put_value (JObj ms) below | _ \<Rightarrow> None)"

definition set_key :: "string \<Rightarrow> frame list \<Rightarrow> parser option" where
  "set_key k stack =
     (case stack of
        FObj ms None # below \<Rightarrow> Some (Parser EColon (FObj ms (Some k) # below) None)
      | _ \<Rightarrow> None)"

definition start_value :: "token \<Rightarrow> frame list \<Rightarrow> parser option" where
  "start_value tk stack =
     (case tk of
        TStr s \<Rightarrow> put_value (JStr s) stack
      | TNum n \<Rightarrow> put_value (JNum n) stack
      | TTrue \<Rightarrow> put_value (JBool True) stack
      | TFalse \<Rightarrow> put_value (JBool False) stack
      | TNull \<Rightarrow> put_value JNull stack
      | TLBrack \<Rightarrow> Some (Parser EValueOrClose (FArr [] # stack) None)
      | TLBrace \<Rightarrow> Some (Parser EKeyOrClose (FObj [] None # stack) None)
      | _ \<Rightarrow> None)"

definition parser_step :: "parser \<Rightarrow> token \<Rightarrow> parser option" where
  "parser_step p tk =
     (case p of Parser ex stack res \<Rightarrow>
        (case ex of
           EValue \<Rightarrow> start_value tk stack
         | EValueOrClose \<Rightarrow> (if tk = TRBrack then close_array stack else start_value tk stack)
         | EKeyOrClose \<Rightarrow>
             (case tk of TStr k \<Rightarrow> set_key k stack | TRBrace \<Rightarrow> close_object stack | _ \<Rightarrow> None)
         | EKey \<Rightarrow> (case tk of TStr k \<Rightarrow> set_key k stack | _ \<Rightarrow> None)
         | EColon \<Rightarrow> (if tk = TColon then Some (Parser EValue stack None) else None)
         | ECommaOrClose \<Rightarrow>
             (case tk of
                TComma \<Rightarrow>
                  (case stack of
                     FArr xs # below \<Rightarrow> Some (Parser EValue stack None)
                   | FObj ms None # below \<Rightarrow> Some (Parser EKey stack None)
                   | _ \<Rightarrow> None)
              | TRBrack \<Rightarrow> close_array stack
              | TRBrace \<Rightarrow> close_object stack
              | _ \<Rightarrow> None)
         | EDone \<Rightarrow> None))"

fun parse_tokens :: "parser \<Rightarrow> token list \<Rightarrow> json option" where
  "parse_tokens (Parser ex stack res) [] = (if ex = EDone then res else None)"
| "parse_tokens p (tk # tks) =
     (case parser_step p tk of None \<Rightarrow> None | Some p' \<Rightarrow> parse_tokens p' tks)"

definition json_parse :: "string \<Rightarrow> json option" where
  "json_parse s =
     (case tokenize s of None \<Rightarrow> None | Some tks \<Rightarrow> parse_tokens (Parser EValue [] None) tks)"

text \<open>
  A number printed as a string: exact for an integer value; another finite value is
  printed with the digits of its fraction, twenty at most.
\<close>

fun fraction_digits :: "nat \<Rightarrow> real \<Rightarrow> string" where
  "fraction_digits 0 x = []"
| "fraction_digits (Suc k) x =
     (if x = 0 then []
      else char_of (48 + nat \<lfloor>x * 10\<rfloor>) # fraction_digits k (x * 10 - real_of_int \<lfloor>x * 10\<rfloor>))"

definition number_text :: "jsnumber \<Rightarrow> string" where
  "number_text n =
     (case n of
        NaN \<Rightarrow> ''NaN''
      | PosInf \<Rightarrow> ''Infinity''
      | NegInf \<Rightarrow> ''-Infinity''
      | Fin r \<Rightarrow>
          (let a = \<bar>r\<bar>; whole = \<lfloor>a\<rfloor>; digits = fraction_digits 20 (a - real_of_int whole)
           in (if r < 0 then ''-'' else []) @ show_int whole
                @ (if digits = [] then [] else ''.'' @ digits)))"

definition engine :: platform where
  "engine = \<lparr>JSON_parse = json_parse, Number_toString = number_text\<rparr>"

section \<open>The batch: one dialog per transaction\<close>

text \<open>
  \<^verbatim>\<open>type LMTransaction\<close>, without the provider metadata, which only the rendering reads.
\<close>

record LMTransaction =
  id_tx :: int
  date_tx :: string
  payee_tx :: "string option"
  amount_tx :: real
  currency_tx :: "string option"
  notes_tx :: "string option"
  category_id_tx :: "int option"
  is_group_tx :: bool

text \<open>
  \<^verbatim>\<open>getTransactions\<close> keeps the uncategorised entries of the ledger's answer:
  \<^verbatim>\<open>(data.transactions || []).filter(t => !t.is_group && t.category_id === null)\<close>.
\<close>

definition getTransactions :: "LMTransaction list option \<Rightarrow> LMTransaction list" where
  "getTransactions data_transactions =
     filter (\<lambda>t. \<not> is_group_tx t \<and> category_id_tx t = None)
       (case data_transactions of None \<Rightarrow> [] | Some ts \<Rightarrow> ts)"

text \<open>
  The program is suspended at three places for each transaction: in \<^verbatim>\<open>llm.invoke\<close>, in
  the dialog until the user acts, and in the ledger update. What the outside world does
  at these places is the script of the transaction: the provider's answer, the user's
  action, the ledger's answer, and whether the Cancel button of the page is clicked while
  the program waits there.
\<close>

datatype llm_content = Text string | Parts "string list"

datatype llm_reply = Reply llm_content | Fails string

text \<open>
  The select of the dialog holds the empty value or the id of a category; the user keeps
  what is preselected or picks a value. Save and the Enter key run \<^verbatim>\<open>onSave\<close>, the
  dialog's Cancel and the Escape key run \<^verbatim>\<open>onCancel\<close>.
\<close>

datatype selection = Keep | Pick "int option"

datatype user_action = Save selection | Skip | CancelModal

datatype ledger_reply = Ack | Rejected string

record tx_world =
  llm :: llm_reply
  cancel_during_llm :: bool
  action :: user_action
  cancel_during_dialog :: bool
  ledger :: ledger_reply
  cancel_during_commit :: bool

text \<open>
  The lines of the page's log, by level and kind; a transaction stands for the title the
  line prints.
\<close>

datatype log_level = Info | Ok | Warn | Err

datatype log_msg =
    Suggesting int
  | CancelledByUser
  | Cancelling
  | SkippedTx int
  | UpdatedTx int int
  | ErrorOn int js_error
  | ErrorGettingSuggestions js_error
  | Finished

text \<open>
  The state a run changes: the global flag \<^verbatim>\<open>cancelled\<close>, the counter \<^verbatim>\<open>done\<close> of
  \<^verbatim>\<open>run\<close>, the log, the percentages given to \<^verbatim>\<open>setBar\<close>, the console, and what
  reached the outside: the transactions \<^verbatim>\<open>llm.invoke\<close> was called for, the
  transactions whose dialog was presented, the ledger updates called, and those the ledger
  acknowledged.
\<close>

record run_state =
  cancelled :: bool
  done_count :: nat
  log_lines :: "(log_level \<times> log_msg) list"
  bar :: "real list"
  console :: "string list"
  invoked :: "int list"
  presented :: "int list"
  commit_calls :: "(int \<times> int) list"
  committed :: "(int \<times> int) list"

text \<open>\<^verbatim>\<open>log(msg, cls)\<close> appends one line to the log of the page.\<close>

definition log_line :: "log_level \<Rightarrow> log_msg \<Rightarrow> run_state \<Rightarrow> run_state" where
  "log_line lvl msg st = st\<lparr>log_lines := log_lines st @ [(lvl, msg)]\<rparr>"

text \<open>
  \<^verbatim>\<open>const onGlobalCancel = () => { if (!cancelled) { cancelled = true;
  log("Cancelling...", "warn"); closeModal(); } };\<close>
\<close>

definition onGlobalCancel :: "run_state \<Rightarrow> run_state" where
  "onGlobalCancel st = (if \<not> cancelled st then log_line Warn Cancelling (st\<lparr>cancelled := True\<rparr>) else st)"

definition while_waiting :: "bool \<Rightarrow> run_state \<Rightarrow> run_state" where
  "while_waiting cancel_clicked st = (if cancel_clicked then onGlobalCancel st else st)"

definition content_text :: "llm_content \<Rightarrow> string" where
  "content_text c = (case c of Text s \<Rightarrow> s | Parts ps \<Rightarrow> join newline ps)"

text \<open>
  \<^verbatim>\<open>chooseCategoryOptions\<close>: the flag is read before \<^verbatim>\<open>llm.invoke\<close> and after it
  returns; a rejected call throws before the second read.
\<close>

definition chooseCategoryOptions ::
  "platform \<Rightarrow> tx_world \<Rightarrow> int \<Rightarrow> run_state \<Rightarrow> (js_error + CategorySuggestion list) \<times> run_state" where
  "chooseCategoryOptions pf w tx st =
     (if cancelled st then (Inl (Error ''Operation cancelled''), st)
      else
        (let st1 = while_waiting (cancel_during_llm w) (st\<lparr>invoked := invoked st @ [tx]\<rparr>) in
         case llm w of
           Fails msg \<Rightarrow> (Inl (Error msg), st1)
         | Reply content \<Rightarrow>
             if cancelled st1 then (Inl (Error ''Operation cancelled''), st1)
             else (extract_suggestions pf (content_text content), st1)))"

text \<open>
  \<^verbatim>\<open>promptUserForCategory\<close>: it resolves each suggestion to an id for its row, which
  may warn on the console, preselects the top suggestion when its id is truthy, and
  waits for the user.
\<close>

definition promptUserForCategory ::
  "tx_world \<Rightarrow> int \<Rightarrow> LMCategory list \<Rightarrow> CategorySuggestion list \<Rightarrow> run_state
     \<Rightarrow> int option \<times> run_state" where
  "promptUserForCategory w tx categories suggestions st =
     (let row_warnings = concat (map (\<lambda>s. snd (matchCategoryId (name_sug s) categories)) suggestions);
          top_warnings = (case suggestions of
                            [] \<Rightarrow> []
                          | s # _ \<Rightarrow> if name_sug s \<noteq> []
                                     then snd (matchCategoryId (name_sug s) categories) else []);
          preselected = (case preId suggestions categories of
                           Some i \<Rightarrow> if i \<noteq> 0 then Some i else None
                         | None \<Rightarrow> None);
          st1 = while_waiting (cancel_during_dialog w)
                  (st\<lparr>console := console st @ row_warnings @ top_warnings,
                      presented := presented st @ [tx]\<rparr>)
      in case action w of
           Save sel \<Rightarrow> ((case sel of Keep \<Rightarrow> preselected | Pick v \<Rightarrow> v), st1)
         | Skip \<Rightarrow> (None, st1)
         | CancelModal \<Rightarrow> (None, st1\<lparr>cancelled := True\<rparr>))"

text \<open>
  \<^verbatim>\<open>promptUserForCategoryWithLoading\<close>: an exception of \<^verbatim>\<open>chooseCategoryOptions\<close>
  is logged and the dialog is presented with no suggestion.
\<close>

definition promptUserForCategoryWithLoading ::
  "platform \<Rightarrow> tx_world \<Rightarrow> LMTransaction \<Rightarrow> LMCategory list \<Rightarrow> run_state
     \<Rightarrow> int option \<times> run_state" where
  "promptUserForCategoryWithLoading pf w t categories st =
     (case chooseCategoryOptions pf w (id_tx t) st of
        (Inr rawSuggestions, st1) \<Rightarrow>
          if cancelled st1 then (None, st1)
          else
            (let (suggestions, warnings) = validateCategorySuggestions rawSuggestions categories
             in promptUserForCategory w (id_tx t) categories suggestions
                  (st1\<lparr>console := console st1 @ warnings\<rparr>))
      | (Inl e, st1) \<Rightarrow>
          promptUserForCategory w (id_tx t) categories []
            (log_line Err (ErrorGettingSuggestions e) st1))"

text \<open>
  One turn of the loop of \<^verbatim>\<open>run\<close>. \<open>count_one\<close> is
  \<^verbatim>\<open>done++; setBar((done / txs.length) * 100);\<close>, which stands in the branch of a
  skipped transaction and in the \<^verbatim>\<open>finally\<close> of the turn; \<^verbatim>\<open>break\<close> and
  \<^verbatim>\<open>continue\<close> inside the \<^verbatim>\<open>try\<close> run the \<^verbatim>\<open>finally\<close> too.
\<close>

datatype flow = Continue | Break

definition count_one :: "nat \<Rightarrow> run_state \<Rightarrow> run_state" where
  "count_one n_txs st =
     st\<lparr>done_count := done_count st + 1,
        bar := bar st @ [real (done_count st + 1) / real n_txs * 100]\<rparr>"

definition process_transaction ::
  "platform \<Rightarrow> LMCategory list \<Rightarrow> nat \<Rightarrow> run_state \<Rightarrow> LMTransaction \<times> tx_world
     \<Rightarrow> flow \<times> run_state" where
  "process_transaction pf categories n_txs st tw =
     (let t = fst tw; w = snd tw in
      if cancelled st then (Break, log_line Warn CancelledByUser st)
      else
        (let st1 = log_line Info (Suggesting (id_tx t)) st in
         if cancelled st1 then (Break, count_one n_txs (log_line Warn CancelledByUser st1))
         else
           (case promptUserForCategoryWithLoading pf w t categories st1 of
              (chosenId, st2) \<Rightarrow>
                if cancelled st2 then (Break, count_one n_txs (log_line Warn CancelledByUser st2))
                else
                  (case chosenId of
                     None \<Rightarrow>
                       (Continue, count_one n_txs (count_one n_txs (log_line Warn (SkippedTx (id_tx t)) st2)))
                   | Some cid \<Rightarrow>
                       if cid = 0 then
                         (Continue, count_one n_txs (count_one n_txs (log_line Warn (SkippedTx (id_tx t)) st2)))
                       else
                         (let st3 = while_waiting (cancel_during_commit w)
                                      (st2\<lparr>commit_calls := commit_calls st2 @ [(id_tx t, cid)]\<rparr>)
                          in case ledger w of
                               Ack \<Rightarrow>
                                 (Continue,
                                  count_one n_txs
                                    (log_line Ok (UpdatedTx (id_tx t) cid)
                                       (st3\<lparr>committed := committed st3 @ [(id_tx t, cid)]\<rparr>)))
                             | Rejected msg \<Rightarrow>
                                 (Continue,
                                  count_one n_txs (log_line Err (ErrorOn (id_tx t) (Error msg)) st3)))))))"

fun process_transactions ::
  "platform \<Rightarrow> LMCategory list \<Rightarrow> nat \<Rightarrow> run_state \<Rightarrow> (LMTransaction \<times> tx_world) list
     \<Rightarrow> run_state" where
  "process_transactions pf categories n_txs st [] = st"
| "process_transactions pf categories n_txs st (tw # rest) =
     (case process_transaction pf categories n_txs st tw of
        (Break, st') \<Rightarrow> st'
      | (Continue, st') \<Rightarrow> process_transactions pf categories n_txs st' rest)"

text \<open>
  The part of \<^verbatim>\<open>run\<close> from the reset of the flag to the last log line, once the
  categories and the transactions are fetched and neither list is empty:
  \<^verbatim>\<open>let done = 0; for (const t of txs) { ... } if (!cancelled) log("Finished.");\<close>
\<close>

definition initial_state :: run_state where
  "initial_state =
     \<lparr>cancelled = False, done_count = 0, log_lines = [], bar = [0], console = [],
      invoked = [], presented = [], commit_calls = [], committed = []\<rparr>"

definition run_batch ::
  "platform \<Rightarrow> LMCategory list \<Rightarrow> (LMTransaction \<times> tx_world) list \<Rightarrow> run_state" where
  "run_batch pf categories txs =
     (let st = process_transactions pf categories (length txs) initial_state txs
      in if \<not> cancelled st then log_line Info Finished st else st)"

section \<open>What a run leaves outside, and sample runs\<close>

text \<open>
  The effects of a run on the outside: the provider calls, the dialogs, the ledger updates
  called and the updates acknowledged.
\<close>

definition effects ::
  "run_state \<Rightarrow> int list \<times> int list \<times> (int \<times> int) list \<times> (int \<times> int) list" where
  "effects st = (invoked st, presented st, commit_calls st, committed st)"


definition sample_tx :: "int \<Rightarrow> LMTransaction" where
  "sample_tx i = \<lparr>id_tx = i, date_tx = ''2025-01-15'', payee_tx = Some ''Corner Market'',
     amount_tx = 12, currency_tx = Some ''usd'', notes_tx = None, category_id_tx = None,
     is_group_tx = False\<rparr>"

definition groceries_reply :: llm_reply where
  "groceries_reply =
     Reply (Text ''{\"suggestions\":[{\"name\":\"Groceries\",\"confidence\":0.9}]}'')"

text \<open>The user saves the preselected category and the ledger acknowledges.\<close>

definition accepting :: tx_world where
  "accepting = \<lparr>llm = groceries_reply, cancel_during_llm = False, action = Save Keep,
     cancel_during_dialog = False, ledger = Ack, cancel_during_commit = False\<rparr>"

text \<open>The user clicks Skip.\<close>

definition skipping :: tx_world where
  "skipping = accepting\<lparr>action := Skip\<rparr>"

text \<open>
  The Cancel button of the page is clicked while the dialog waits; the user then presses
  Enter, which saves the preselected category.
\<close>

definition cancelling :: tx_world where
  "cancelling = accepting\<lparr>cancel_during_dialog := True\<rparr>"

text \<open>The provider answers with braces around something that is not JSON.\<close>

definition babbling :: tx_world where
  "babbling = accepting\<lparr>llm := Reply (Text ''{not json}''), action := Skip\<rparr>"

section \<open>The lexer's length tests never fail\<close>

lemma lex_escape_shorter: "lex_escape cs = Some (x, r) \<Longrightarrow> length r < length cs"
  by (auto simp: lex_escape_def split: list.splits option.splits if_splits)

lemma lex_string_shorter: "lex_string cs = Some (s, rest) \<Longrightarrow> length rest \<le> length cs"
proof (induction cs arbitrary: s rest rule: lex_string.induct)
  case 1
  then show ?case by simp
next
  case (2 c cs)
  show ?case
  proof (cases "c = CHR 0x22")
    case True
    with "2.prems" show ?thesis by simp
  next
    case quote: False
    show ?thesis
    proof (cases "c = CHR 0x5C")
      case True
      with quote "2.prems" obtain x r s' where
        e: "lex_escape cs = Some (x, r)" "length r < length cs" "lex_string r = Some (s', rest)"
        by (auto split: option.splits if_splits)
      from "2.IH"(1) [OF quote True e(1) refl e(2) e(3)] e(2) show ?thesis by simp
    next
      case False
      with quote "2.prems" obtain s' where
        e: "\<not> (of_char c :: nat) < 32" "lex_string cs = Some (s', rest)"
        by (auto split: option.splits if_splits)
      from "2.IH"(2) [OF quote False e(1) e(2)] show ?thesis by simp
    qed
  qed
qed

lemma lex_sign_shorter: "length (snd (lex_sign s)) \<le> length s"
  by (simp add: lex_sign_def split: list.splits)

lemma lex_int_part_shorter: "lex_int_part s = Some (i, r) \<Longrightarrow> length r < length s"
  by (auto simp: lex_int_part_def le_imp_less_Suc length_dropWhile_le
      split: list.splits if_splits)

lemma lex_frac_shorter: "lex_frac s = Some (f, r) \<Longrightarrow> length r \<le> length s"
  by (auto simp: lex_frac_def Let_def le_SucI length_dropWhile_le split: list.splits if_splits)

lemma lex_exp_shorter: "lex_exp s = Some (e, r) \<Longrightarrow> length r \<le> length s"
proof (cases s)
  case Nil
  assume "lex_exp s = Some (e, r)"
  with Nil show ?thesis by (simp add: lex_exp_def)
next
  case (Cons c t)
  assume a: "lex_exp s = Some (e, r)"
  show ?thesis
  proof (cases "c = CHR ''e'' \<or> c = CHR ''E''")
    case False
    with a Cons show ?thesis by (simp add: lex_exp_def)
  next
    case True
    let ?signed = "t \<noteq> [] \<and> (hd t = CHR ''-'' \<or> hd t = CHR ''+'')"
    let ?r1 = "if ?signed then tl t else t"
    from a Cons True have "r = dropWhile is_digit ?r1"
      by (auto simp: lex_exp_def Let_def split: if_splits)
    moreover have "length (dropWhile is_digit ?r1) \<le> length ?r1"
      by (rule length_dropWhile_le)
    moreover have "length ?r1 \<le> length t"
      by simp
    ultimately show ?thesis using Cons by simp
  qed
qed

lemma lex_number_shorter: "lex_number (c # cs) = Some (n, rest) \<Longrightarrow> length rest \<le> length cs"
proof -
  assume a: "lex_number (c # cs) = Some (n, rest)"
  then obtain whole s2 fraction s3 e where
    i: "lex_int_part (snd (lex_sign (c # cs))) = Some (whole, s2)"
    and f: "lex_frac s2 = Some (fraction, s3)"
    and x: "lex_exp s3 = Some (e, rest)"
    by (auto simp: lex_number_def Let_def split: option.splits)
  from lex_int_part_shorter [OF i] lex_sign_shorter [of "c # cs"]
  have "length s2 \<le> length cs" by simp
  with lex_frac_shorter [OF f] lex_exp_shorter [OF x] show ?thesis by simp
qed

lemma lex_string_escape:
  "lex_escape cs = Some (x, r) \<Longrightarrow>
     lex_string (CHR 0x5C # cs) = map_option (\<lambda>(s, rest). (x # s, rest)) (lex_string r)"
  by (simp add: lex_escape_shorter)

lemma tokenize_string:
  "lex_string cs = Some (str, rest) \<Longrightarrow>
     tokenize (CHR 0x22 # cs) = map_option ((#) (TStr str)) (tokenize rest)"
  by (simp add: lex_string_shorter is_json_ws_def)

lemma tokenize_minus:
  "lex_number (CHR ''-'' # cs) = Some (n, rest) \<Longrightarrow>
     tokenize (CHR ''-'' # cs) = map_option ((#) (TNum n)) (tokenize rest)"
  by (simp add: lex_number_shorter is_json_ws_def)

lemma tokenize_digit:
  assumes "is_digit c" and "lex_number (c # cs) = Some (n, rest)"
  shows "tokenize (c # cs) = map_option ((#) (TNum n)) (tokenize rest)"
proof -
  from assms(1) have "\<not> is_json_ws c" "c \<noteq> CHR ''{''" "c \<noteq> CHR ''}''" "c \<noteq> CHR ''[''"
    "c \<noteq> CHR '']''" "c \<noteq> CHR '':''" "c \<noteq> CHR '',''" "c \<noteq> CHR 0x22"
    by (auto simp: is_digit_def is_json_ws_def)
  with assms lex_number_shorter [OF assms(2)] show ?thesis by simp
qed

section \<open>The matcher and the validator\<close>

lemma includes_str_sublist: "includes_str hay needle \<longleftrightarrow> sublist needle hay"
  by (induction hay) (auto simp: sublist_Cons_right)

lemma find_first_hit: "first_hit P xs i \<Longrightarrow> find P xs = Some (xs ! i)"
  unfolding first_hit_def find_Some_iff by blast

lemma find_no_hit: "(\<forall>x\<in>set xs. \<not> P x) \<Longrightarrow> find P xs = None"
  by (simp add: find_None_iff)

lemma match_alt:
  "matchCategoryId q cats =
     (case find (name_equal q) cats of
        Some found \<Rightarrow> (Some (id_cat found), [])
      | None \<Rightarrow>
         (case find (name_equal_ci q) cats of
            Some found \<Rightarrow> (Some (id_cat found), [])
          | None \<Rightarrow>
             (case find (name_overlaps q) cats of
                Some found \<Rightarrow> (Some (id_cat found), [fuzzy_warning q (name_cat found)])
              | None \<Rightarrow> (None, []))))"
proof -
  have 1: "(\<lambda>c. name_cat c = q) = name_equal q"
    by (simp add: name_equal_def fun_eq_iff)
  have 2: "(\<lambda>c. toLowerCase (name_cat c) = toLowerCase q) = name_equal_ci q"
    by (simp add: name_equal_ci_def fun_eq_iff)
  have 3: "(\<lambda>c. includes_str (toLowerCase (name_cat c)) (toLowerCase q)
                \<or> includes_str (toLowerCase q) (toLowerCase (name_cat c))) = name_overlaps q"
    by (simp add: name_overlaps_def fun_eq_iff includes_str_sublist)
  show ?thesis
    unfolding matchCategoryId_def Let_def 1 2 3 ..
qed

text \<open>
  C4. \<^const>\<open>matchCategoryId\<close> resolves a name in three tiers, each stopping at its first hit
  in iteration order: equality of the names; failing that, equality of the lowercased
  names; failing that, one lowercased name occurring inside the other, which is the only
  tier that writes the fuzzy-match warning. When no tier hits the result is null.
\<close>

theorem matchCategoryId_tiers:
  "(first_hit (name_equal q) cats i \<longrightarrow>
      matchCategoryId q cats = (Some (id_cat (cats ! i)), []))
   \<and> ((\<forall>c\<in>set cats. \<not> name_equal q c) \<and> first_hit (name_equal_ci q) cats i \<longrightarrow>
      matchCategoryId q cats = (Some (id_cat (cats ! i)), []))
   \<and> ((\<forall>c\<in>set cats. \<not> name_equal q c) \<and> (\<forall>c\<in>set cats. \<not> name_equal_ci q c)
        \<and> first_hit (name_overlaps q) cats i \<longrightarrow>
      matchCategoryId q cats =
        (Some (id_cat (cats ! i)), [fuzzy_warning q (name_cat (cats ! i))]))
   \<and> ((\<forall>c\<in>set cats. \<not> name_equal q c) \<and> (\<forall>c\<in>set cats. \<not> name_equal_ci q c)
        \<and> (\<forall>c\<in>set cats. \<not> name_overlaps q c) \<longrightarrow>
      matchCategoryId q cats = (None, []))"
  by (auto simp: match_alt dest!: find_first_hit find_no_hit)

theorem matchCategoryId_tiers_witness:
  "matchCategoryId ''Groceries'' [groceries] = (Some 1, [])
   \<and> matchCategoryId ''groceries'' [groceries] = (Some 1, [])
   \<and> matchCategoryId ''Gas'' [gas_transportation]
       = (Some 2, [fuzzy_warning ''Gas'' ''Gas, Transportation''])
   \<and> matchCategoryId ''Zzz'' [groceries, gas_transportation] = (None, [])"
proof -
  have t1: "first_hit (name_equal ''Groceries'') [groceries] 0"
    by (simp add: first_hit_def name_equal_def groceries_def)
  have n2: "\<forall>c\<in>set [groceries]. \<not> name_equal ''groceries'' c"
    by (simp add: name_equal_def groceries_def)
  have t2: "first_hit (name_equal_ci ''groceries'') [groceries] 0"
  proof -
    have "name_equal_ci ''groceries'' groceries" by code_simp
    then show ?thesis by (simp add: first_hit_def)
  qed
  have n3: "\<forall>c\<in>set [gas_transportation]. \<not> name_equal ''Gas'' c"
    by (simp add: name_equal_def gas_transportation_def)
  have m3: "\<forall>c\<in>set [gas_transportation]. \<not> name_equal_ci ''Gas'' c"
    by code_simp
  have t3: "first_hit (name_overlaps ''Gas'') [gas_transportation] 0"
  proof -
    have "name_overlaps ''Gas'' gas_transportation" by code_simp
    then show ?thesis by (simp add: first_hit_def)
  qed
  have n4: "\<forall>c\<in>set [groceries, gas_transportation]. \<not> name_equal ''Zzz'' c"
    by (simp add: name_equal_def groceries_def gas_transportation_def)
  have m4: "\<forall>c\<in>set [groceries, gas_transportation]. \<not> name_equal_ci ''Zzz'' c"
    by code_simp
  have f4: "\<forall>c\<in>set [groceries, gas_transportation]. \<not> name_overlaps ''Zzz'' c"
    by code_simp
  have r1: "matchCategoryId ''Groceries'' [groceries] = (Some (id_cat ([groceries] ! 0)), [])"
    using matchCategoryId_tiers [of "''Groceries''" "[groceries]" 0] t1 by blast
  have r2: "matchCategoryId ''groceries'' [groceries] = (Some (id_cat ([groceries] ! 0)), [])"
    using matchCategoryId_tiers [of "''groceries''" "[groceries]" 0] n2 t2 by blast
  have r3: "matchCategoryId ''Gas'' [gas_transportation]
      = (Some (id_cat ([gas_transportation] ! 0)),
         [fuzzy_warning ''Gas'' (name_cat ([gas_transportation] ! 0))])"
    using matchCategoryId_tiers [of "''Gas''" "[gas_transportation]" 0] n3 m3 t3 by blast
  have r4: "matchCategoryId ''Zzz'' [groceries, gas_transportation] = (None, [])"
    using matchCategoryId_tiers [of "''Zzz''" "[groceries, gas_transportation]" 0] n4 m4 f4
    by blast
  show ?thesis
    using r1 r2 r3 r4 by (simp add: groceries_def gas_transportation_def)
qed

text \<open>
  C5. \<^const>\<open>validateCategorySuggestions\<close> keeps exactly the suggestions whose name equals,
  character for character, the name of some category, and warns once for every other one.
  A suggestion named Gas is dropped when the only category is "Gas, Transportation",
  although \<^const>\<open>matchCategoryId\<close> resolves that name to the category's id.
\<close>

theorem validateCategorySuggestions_exact:
  "fst (validateCategorySuggestions suggestions categories)
     = filter (\<lambda>s. \<exists>c\<in>set categories. name_cat c = name_sug s) suggestions
   \<and> snd (validateCategorySuggestions suggestions categories)
     = map (\<lambda>s. invalid_warning (name_sug s))
         (filter (\<lambda>s. \<not> (\<exists>c\<in>set categories. name_cat c = name_sug s)) suggestions)
   \<and> (\<forall>s. s \<in> set (fst (validateCategorySuggestions suggestions categories))
          \<longleftrightarrow> s \<in> set suggestions \<and> (\<exists>c\<in>set categories. name_cat c = name_sug s))
   \<and> (categories = [gas_transportation] \<and> name_sug g = ''Gas'' \<longrightarrow>
        fst (validateCategorySuggestions [g] categories) = []
        \<and> fst (matchCategoryId (name_sug g) categories) = Some 2)"
proof -
  have mem: "\<And>s. name_sug s \<in> validCategoryNames categories
      \<longleftrightarrow> (\<exists>c\<in>set categories. name_cat c = name_sug s)"
    by (force simp: validCategoryNames_def)
  have gas: "fst (matchCategoryId ''Gas'' [gas_transportation]) = Some 2"
    by code_simp
  have drop: "fst (validateCategorySuggestions [g] [gas_transportation]) = []"
    if "name_sug g = ''Gas''" for g
    using that
    by (simp add: validateCategorySuggestions_def validCategoryNames_def gas_transportation_def)
  have keep: "fst (validateCategorySuggestions suggestions categories)
     = filter (\<lambda>s. \<exists>c\<in>set categories. name_cat c = name_sug s) suggestions"
    by (simp add: validateCategorySuggestions_def mem)
  have warn: "snd (validateCategorySuggestions suggestions categories)
     = map (\<lambda>s. invalid_warning (name_sug s))
         (filter (\<lambda>s. \<not> (\<exists>c\<in>set categories. name_cat c = name_sug s)) suggestions)"
    by (simp add: validateCategorySuggestions_def mem)
  have iff: "\<forall>s. s \<in> set (fst (validateCategorySuggestions suggestions categories))
          \<longleftrightarrow> s \<in> set suggestions \<and> (\<exists>c\<in>set categories. name_cat c = name_sug s)"
    unfolding keep by simp
  from keep warn iff gas drop show ?thesis
    by presburger
qed

theorem validateCategorySuggestions_exact_witness:
  "validateCategorySuggestions [gas_suggestion] [gas_transportation]
     = ([], [invalid_warning ''Gas''])
   \<and> fst (matchCategoryId ''Gas'' [gas_transportation]) = Some 2"
  using validateCategorySuggestions_exact
    [of "[gas_suggestion]" "[gas_transportation]" gas_suggestion]
  by (simp add: gas_suggestion_def gas_transportation_def prod_eq_iff)

text \<open>
  C10. The validated list is a subsequence of the suggestions given (the kept ones
  unchanged, in their order, none twice), and validating it again against the same
  categories returns it as it is, with no warning.
\<close>

theorem validateCategorySuggestions_subseq_idem:
  "subseq (fst (validateCategorySuggestions suggestions categories)) suggestions
   \<and> validateCategorySuggestions (fst (validateCategorySuggestions suggestions categories))
        categories
     = (fst (validateCategorySuggestions suggestions categories), [])"
  by (simp add: validateCategorySuggestions_def)

text \<open>
  C9, as the claim states it, fails where a category and a suggestion both carry the empty
  name: the suggestion is kept, and the preselection treats its empty name as falsy.
\<close>

theorem preselection_null_counterexample:
  "distinct (map name_cat [unnamed_category])
   \<and> fst (validateCategorySuggestions [unnamed_suggestion] [unnamed_category])
       = [unnamed_suggestion]
   \<and> preId (fst (validateCategorySuggestions [unnamed_suggestion] [unnamed_category]))
       [unnamed_category] = None"
  by (simp add: validateCategorySuggestions_def validCategoryNames_def preId_def
      unnamed_category_def unnamed_suggestion_def)

lemma find_distinct_name:
  "c \<in> set cats \<Longrightarrow> distinct (map name_cat cats) \<Longrightarrow>
     find (\<lambda>d. name_cat d = name_cat c) cats = Some c"
  by (induction cats) (auto simp: rev_image_eqI)

text \<open>
  C9, amended. With category names unique, every suggestion kept by
  \<^const>\<open>validateCategorySuggestions\<close> resolves in the first tier of \<^const>\<open>matchCategoryId\<close>
  to the id of the one category of that name, with no fuzzy warning; and when the first
  kept suggestion has a non-empty name, the preselected id is not null.
\<close>

theorem validated_resolves_exactly:
  "distinct (map name_cat categories) \<longrightarrow>
     (\<forall>s\<in>set (fst (validateCategorySuggestions suggestions categories)).
        \<exists>c\<in>set categories. name_cat c = name_sug s
          \<and> find (\<lambda>d. name_cat d = name_sug s) categories = Some c
          \<and> matchCategoryId (name_sug s) categories = (Some (id_cat c), []))
     \<and> (\<forall>s rest. fst (validateCategorySuggestions suggestions categories) = s # rest
          \<and> name_sug s \<noteq> [] \<longrightarrow>
          preId (fst (validateCategorySuggestions suggestions categories)) categories \<noteq> None)"
proof (intro impI conjI ballI allI)
  fix s
  assume d: "distinct (map name_cat categories)"
    and s: "s \<in> set (fst (validateCategorySuggestions suggestions categories))"
  from s obtain c where c: "c \<in> set categories" "name_cat c = name_sug s"
    by (auto simp: validateCategorySuggestions_def validCategoryNames_def)
  from find_distinct_name [OF c(1) d] c(2)
  have f: "find (\<lambda>d. name_cat d = name_sug s) categories = Some c" by simp
  then have "matchCategoryId (name_sug s) categories = (Some (id_cat c), [])"
    by (simp add: matchCategoryId_def)
  with c f show "\<exists>c\<in>set categories. name_cat c = name_sug s
          \<and> find (\<lambda>d. name_cat d = name_sug s) categories = Some c
          \<and> matchCategoryId (name_sug s) categories = (Some (id_cat c), [])"
    by blast
next
  fix s rest
  assume d: "distinct (map name_cat categories)"
    and v: "fst (validateCategorySuggestions suggestions categories) = s # rest
          \<and> name_sug s \<noteq> []"
  then have "s \<in> set (fst (validateCategorySuggestions suggestions categories))" by simp
  then obtain c where c: "c \<in> set categories" "name_cat c = name_sug s"
    by (auto simp: validateCategorySuggestions_def validCategoryNames_def)
  from find_distinct_name [OF c(1) d] c(2)
  have "find (\<lambda>d. name_cat d = name_sug s) categories = Some c" by simp
  then have "matchCategoryId (name_sug s) categories = (Some (id_cat c), [])"
    by (simp add: matchCategoryId_def)
  with v show "preId (fst (validateCategorySuggestions suggestions categories)) categories \<noteq> None"
    by (simp add: preId_def)
qed

theorem validated_resolves_exactly_witness:
  "distinct (map name_cat [groceries, gas_transportation])
   \<and> fst (validateCategorySuggestions [gas_suggestion, groceries_suggestion]
        [groceries, gas_transportation]) = [groceries_suggestion]
   \<and> matchCategoryId ''Groceries'' [groceries, gas_transportation] = (Some 1, [])
   \<and> preId [groceries_suggestion] [groceries, gas_transportation] \<noteq> None"
proof -
  have d: "distinct (map name_cat [groceries, gas_transportation])"
    by (simp add: groceries_def gas_transportation_def)
  have v: "fst (validateCategorySuggestions [gas_suggestion, groceries_suggestion]
        [groceries, gas_transportation]) = [groceries_suggestion]"
    by (simp add: validateCategorySuggestions_def validCategoryNames_def groceries_def
        gas_transportation_def gas_suggestion_def groceries_suggestion_def)
  have n: "name_sug groceries_suggestion \<noteq> []"
    by (simp add: groceries_suggestion_def)
  note t = validated_resolves_exactly
    [of "[groceries, gas_transportation]" "[gas_suggestion, groceries_suggestion]"]
  from t d v have "\<exists>c\<in>set [groceries, gas_transportation].
      name_cat c = name_sug groceries_suggestion
      \<and> find (\<lambda>d. name_cat d = name_sug groceries_suggestion) [groceries, gas_transportation]
          = Some c
      \<and> matchCategoryId (name_sug groceries_suggestion) [groceries, gas_transportation]
          = (Some (id_cat c), [])"
    by simp
  then have m: "matchCategoryId ''Groceries'' [groceries, gas_transportation] = (Some 1, [])"
    by (auto simp: groceries_def gas_transportation_def groceries_suggestion_def)
  from t d v n have "preId [groceries_suggestion] [groceries, gas_transportation] \<noteq> None"
    by simp
  with d v m show ?thesis by simp
qed

section \<open>The system prompt\<close>













section \<open>Confidence normalisation\<close>





section \<open>The model's answer\<close>






text \<open>
  When \<^const>\<open>extract_suggestions\<close> throws, for any engine: exactly when the text is not
  JSON, has an opening brace before its last closing brace, and the text between them is
  not JSON either.
\<close>

lemma extract_suggestions_throws:
  "extract_suggestions pf content = Inl e \<longleftrightarrow>
     e = SyntaxError \<and> trim content \<noteq> []
     \<and> (let jsonText = trim (case fence_match (trim content) of
                                Some m1 \<Rightarrow> m1 | None \<Rightarrow> trim content);
             start = indexOf jsonText (CHR ''{'');
             last = lastIndexOf jsonText (CHR ''}'')
         in JSON_parse pf jsonText = None \<and> 0 \<le> start \<and> start < last
            \<and> JSON_parse pf (slice jsonText start (last + 1)) = None)"
  by (auto simp: extract_suggestions_def Let_def split: option.splits)

text \<open>The examples of the specification, on the model of the engine's parser.\<close>

lemma extract_suggestions_examples:
  "extract_suggestions engine
     (''Here you go:'' @ newline @ fence @ ''json'' @ newline
        @ ''{\"suggestions\":[{\"name\":\"Groceries\",\"confidence\":0.9}]}'' @ newline @ fence)
     = Inr [\<lparr>name_sug = ''Groceries'', justification = None,
              confidence = Some (Fin (9 / 10))\<rparr>]"
  "extract_suggestions engine ''not json at all'' = Inr []"
  "extract_suggestions engine ''noise {\"suggestions\":[]} trailing'' = Inr []"
  by code_simp+

text \<open>
  C1. The claim is the intent of the code, which returns the empty list when the text has
  no braces; the second \<^verbatim>\<open>JSON.parse\<close>, inside the \<^verbatim>\<open>catch\<close>, is not guarded, and
  its \<^verbatim>\<open>SyntaxError\<close> leaves the function. The answer \<^verbatim>\<open>{not json}\<close> shows it.
\<close>

theorem brace_text_not_json_throws:
  "extract_suggestions engine ''{not json}'' = Inl SyntaxError"
  by code_simp

section \<open>The batch\<close>

lemma log_line_fields [simp]:
  "cancelled (log_line l m st) = cancelled st"
  "done_count (log_line l m st) = done_count st"
  "bar (log_line l m st) = bar st"
  "invoked (log_line l m st) = invoked st"
  "presented (log_line l m st) = presented st"
  "commit_calls (log_line l m st) = commit_calls st"
  "committed (log_line l m st) = committed st"
  "log_lines (log_line l m st) = log_lines st @ [(l, m)]"
  by (simp_all add: log_line_def)

lemma count_one_fields [simp]:
  "cancelled (count_one n st) = cancelled st"
  "done_count (count_one n st) = done_count st + 1"
  "bar (count_one n st) = bar st @ [real (done_count st + 1) / real n * 100]"
  "invoked (count_one n st) = invoked st"
  "presented (count_one n st) = presented st"
  "commit_calls (count_one n st) = commit_calls st"
  "committed (count_one n st) = committed st"
  "log_lines (count_one n st) = log_lines st"
  by (simp_all add: count_one_def)

lemma while_waiting_fields [simp]:
  "cancelled (while_waiting b st) = (b \<or> cancelled st)"
  "done_count (while_waiting b st) = done_count st"
  "bar (while_waiting b st) = bar st"
  "invoked (while_waiting b st) = invoked st"
  "presented (while_waiting b st) = presented st"
  "commit_calls (while_waiting b st) = commit_calls st"
  "committed (while_waiting b st) = committed st"
  by (simp_all add: while_waiting_def onGlobalCancel_def)

lemma choose_frame:
  assumes "chooseCategoryOptions pf w tx st = (r, st1)"
  shows "done_count st1 = done_count st \<and> bar st1 = bar st \<and> presented st1 = presented st
    \<and> commit_calls st1 = commit_calls st \<and> committed st1 = committed st
    \<and> (cancelled st \<longrightarrow> st1 = st)
    \<and> (cancelled st1 \<longleftrightarrow> cancelled st \<or> cancel_during_llm w)
    \<and> (invoked st1 = (if cancelled st then invoked st else invoked st @ [tx]))"
  using assms
  by (auto simp: chooseCategoryOptions_def Let_def split: if_splits llm_reply.splits)

lemma dialog_frame:
  assumes "promptUserForCategory w tx categories suggestions st = (chosen, st1)"
  shows "done_count st1 = done_count st \<and> bar st1 = bar st \<and> invoked st1 = invoked st
    \<and> commit_calls st1 = commit_calls st \<and> committed st1 = committed st
    \<and> presented st1 = presented st @ [tx]
    \<and> (cancelled st1 \<longleftrightarrow> cancelled st \<or> cancel_during_dialog w \<or> action w = CancelModal)"
  using assms
  by (auto simp: promptUserForCategory_def Let_def split: user_action.splits)

lemma loading_frame:
  assumes "promptUserForCategoryWithLoading pf w t categories st = (chosen, st1)"
  shows "done_count st1 = done_count st \<and> bar st1 = bar st
    \<and> commit_calls st1 = commit_calls st \<and> committed st1 = committed st
    \<and> (cancelled st \<longrightarrow> cancelled st1)
    \<and> (cancel_during_llm w \<or> cancel_during_dialog w \<or> action w = CancelModal \<longrightarrow> cancelled st1)
    \<and> (\<not> cancelled st \<longrightarrow> invoked st1 = invoked st @ [id_tx t]
          \<and> presented st1 = presented st @ [id_tx t])"
proof (cases "chooseCategoryOptions pf w (id_tx t) st")
  case (Pair r st')
  note f = choose_frame [OF Pair]
  show ?thesis
  proof (cases r)
    case (Inl e)
    with Pair assms
    have "promptUserForCategory w (id_tx t) categories []
            (log_line Err (ErrorGettingSuggestions e) st') = (chosen, st1)"
      by (simp add: promptUserForCategoryWithLoading_def)
    from dialog_frame [OF this] f show ?thesis by auto
  next
    case (Inr raw)
    show ?thesis
    proof (cases "cancelled st'")
      case True
      with Pair Inr assms have "st1 = st'"
        by (simp add: promptUserForCategoryWithLoading_def)
      with f True show ?thesis
        using Pair Inr by (auto simp: chooseCategoryOptions_def Let_def split: if_splits llm_reply.splits)
    next
      case False
      obtain sg wn where v: "validateCategorySuggestions raw categories = (sg, wn)"
        by (cases "validateCategorySuggestions raw categories")
      with Pair Inr assms False
      have "promptUserForCategory w (id_tx t) categories sg
              (st'\<lparr>console := console st' @ wn\<rparr>) = (chosen, st1)"
        by (simp add: promptUserForCategoryWithLoading_def)
      from dialog_frame [OF this] f False show ?thesis by auto
    qed
  qed
qed

lemma turn_when_cancelled:
  "cancelled st \<Longrightarrow>
     process_transaction pf categories n st tw = (Break, log_line Warn CancelledByUser st)"
  by (simp add: process_transaction_def Let_def)

lemma turn_frame:
  assumes "process_transaction pf categories n st (t, w) = (fl, st')"
  shows "(cancelled st \<longrightarrow> cancelled st')
    \<and> (fl = Break \<longrightarrow> cancelled st' \<and> commit_calls st' = commit_calls st
          \<and> committed st' = committed st)
    \<and> (cancel_during_llm w \<or> cancel_during_dialog w \<or> action w = CancelModal \<longrightarrow> fl = Break)
    \<and> prefix (committed st) (committed st')
    \<and> prefix (commit_calls st) (commit_calls st')
    \<and> (\<not> cancelled st \<longrightarrow> invoked st' = invoked st @ [id_tx t]
          \<and> presented st' = presented st @ [id_tx t])
    \<and> (cancelled st \<longrightarrow> effects st' = effects st)"
proof (cases "cancelled st")
  case True
  with assms turn_when_cancelled [OF True, of pf categories n "(t, w)"] show ?thesis
    by (auto simp: effects_def)
next
  case False
  obtain chosen st2 where
    p: "promptUserForCategoryWithLoading pf w t categories (log_line Info (Suggesting (id_tx t)) st)
          = (chosen, st2)"
    by (cases "promptUserForCategoryWithLoading pf w t categories
          (log_line Info (Suggesting (id_tx t)) st)")
  note f = loading_frame [OF p]
  from assms False p f show ?thesis
    by (auto simp: process_transaction_def Let_def
        split: if_splits option.splits ledger_reply.splits)
qed

lemma loop_when_cancelled:
  "cancelled st \<Longrightarrow> effects (process_transactions pf categories n st txs) = effects st"
proof (cases txs)
  case Nil
  then show ?thesis by simp
next
  case (Cons tw rest)
  assume "cancelled st"
  from turn_when_cancelled [OF this, of pf categories n tw] Cons show ?thesis
    by (simp add: effects_def)
qed

lemma rest_ignored:
  "cancelled (process_transactions pf categories n st xs) \<Longrightarrow>
     effects (process_transactions pf categories n st (xs @ ys))
       = effects (process_transactions pf categories n st xs)"
proof (induction xs arbitrary: st)
  case Nil
  then show ?case by (simp add: loop_when_cancelled)
next
  case (Cons tw xs)
  obtain fl st' where s: "process_transaction pf categories n st tw = (fl, st')"
    by (cases "process_transaction pf categories n st tw")
  show ?case
  proof (cases fl)
    case Break
    with s show ?thesis by simp
  next
    case Continue
    with s Cons.prems have "cancelled (process_transactions pf categories n st' xs)" by simp
    from Cons.IH [OF this] s Continue show ?thesis by simp
  qed
qed

lemma commits_kept:
  "prefix (committed st) (committed (process_transactions pf categories n st xs))"
proof (induction xs arbitrary: st)
  case Nil
  then show ?case by simp
next
  case (Cons tw xs)
  obtain t w where tw: "tw = (t, w)" by (cases tw)
  obtain fl st' where s: "process_transaction pf categories n st (t, w) = (fl, st')"
    by (cases "process_transaction pf categories n st (t, w)")
  from turn_frame [OF s] have p: "prefix (committed st) (committed st')" by blast
  show ?case
  proof (cases fl)
    case Break
    with s tw p show ?thesis by simp
  next
    case Continue
    from Cons.IH [of st'] p have "prefix (committed st)
        (committed (process_transactions pf categories n st' xs))"
      by (rule prefix_order.trans [rotated])
    with s tw Continue show ?thesis by simp
  qed
qed

lemma loop_append:
  "\<not> cancelled (process_transactions pf categories n st xs) \<Longrightarrow>
     process_transactions pf categories n st (xs @ ys)
       = process_transactions pf categories n (process_transactions pf categories n st xs) ys"
proof (induction xs arbitrary: st)
  case Nil
  then show ?case by simp
next
  case (Cons tw xs)
  obtain t w where tw: "tw = (t, w)" by (cases tw)
  obtain fl st' where s: "process_transaction pf categories n st (t, w) = (fl, st')"
    by (cases "process_transaction pf categories n st (t, w)")
  show ?case
  proof (cases fl)
    case Break
    with turn_frame [OF s] have "cancelled st'" by blast
    with s tw Break Cons.prems show ?thesis by simp
  next
    case Continue
    with s tw Cons.prems have "\<not> cancelled (process_transactions pf categories n st' xs)"
      by simp
    from Cons.IH [OF this] s tw Continue show ?thesis by simp
  qed
qed

lemma turn_count:
  assumes "process_transaction pf categories n st (t, w) = (fl, st')"
  shows "done_count st' = done_count st
     + (if cancelled st then 0
        else if fl = Continue \<and> commit_calls st' = commit_calls st then 2 else 1)"
proof (cases "cancelled st")
  case True
  with assms turn_when_cancelled [OF True, of pf categories n "(t, w)"] show ?thesis
    by auto
next
  case False
  obtain chosen st2 where
    p: "promptUserForCategoryWithLoading pf w t categories (log_line Info (Suggesting (id_tx t)) st)
          = (chosen, st2)"
    by (cases "promptUserForCategoryWithLoading pf w t categories
          (log_line Info (Suggesting (id_tx t)) st)")
  note f = loading_frame [OF p]
  from assms False p f show ?thesis
    by (auto simp: process_transaction_def Let_def
        split: if_splits option.splits ledger_reply.splits)
qed

text \<open>
  The two further reads of the flag in the source follow an earlier read with no
  suspension in between, and never fire: the one after the first log line of a turn, and
  the one after \<^verbatim>\<open>chooseCategoryOptions\<close> has returned a list.
\<close>

lemma read_after_first_log_line:
  "cancelled (log_line Info (Suggesting i) st) = cancelled st"
  by simp

lemma read_after_suggestions_returned:
  "chooseCategoryOptions pf w i st = (Inr suggestions, st1) \<Longrightarrow> \<not> cancelled st1"
  by (auto simp: chooseCategoryOptions_def Let_def split: if_splits llm_reply.splits)

text \<open>
  C2. The claim is what the \<^verbatim>\<open>finally\<close> of the loop does for a transaction that is
  committed, cancelled or failed. The branch of a skipped transaction counts and moves the
  bar itself and then leaves by \<^verbatim>\<open>continue\<close>, which runs the \<^verbatim>\<open>finally\<close>: one
  skipped transaction of one leaves the counter at 2 and the bar at 200 percent.
\<close>

theorem skipped_transaction_counted_twice:
  "done_count (process_transactions engine [groceries] 1 initial_state [(sample_tx 101, skipping)]) = 2
   \<and> bar (process_transactions engine [groceries] 1 initial_state [(sample_tx 101, skipping)])
       = [0, 100, 200]"
  by code_simp

text \<open>
  C7. Once the flag is set by the end of the turn of a transaction, the transactions after
  it change nothing outside: no provider call, no dialog, no ledger update. The flag is
  set by that turn whenever the page's Cancel is clicked during the provider call or the
  dialog, or the dialog is cancelled. The updates acknowledged for the transactions before
  stay as they are. The flag is read at the top of the turn, before the provider call
  (which is then not made), after it (a reply is then discarded), and before the ledger
  update (which is then not called).
\<close>

theorem cancellation_stops_the_batch:
  "(cancelled (process_transactions pf categories n st (before @ [(t, w)])) \<longrightarrow>
      effects (process_transactions pf categories n st (before @ (t, w) # later))
        = effects (process_transactions pf categories n st (before @ [(t, w)])))
   \<and> (\<not> cancelled (process_transactions pf categories n st before)
        \<and> (cancel_during_llm w \<or> cancel_during_dialog w \<or> action w = CancelModal) \<longrightarrow>
      cancelled (process_transactions pf categories n st (before @ [(t, w)])))
   \<and> prefix (committed (process_transactions pf categories n st before))
        (committed (process_transactions pf categories n st (before @ later)))
   \<and> (cancelled st \<longrightarrow>
        process_transaction pf categories n st (t, w) = (Break, log_line Warn CancelledByUser st))
   \<and> (cancelled st \<longrightarrow>
        chooseCategoryOptions pf w (id_tx t) st = (Inl (Error ''Operation cancelled''), st))
   \<and> (\<not> cancelled st \<and> cancel_during_llm w \<and> llm w = Reply content \<longrightarrow>
        fst (chooseCategoryOptions pf w (id_tx t) st) = Inl (Error ''Operation cancelled''))
   \<and> (\<not> cancelled st
        \<and> (cancel_during_llm w \<or> cancel_during_dialog w \<or> action w = CancelModal) \<longrightarrow>
        fst (process_transaction pf categories n st (t, w)) = Break
        \<and> commit_calls (snd (process_transaction pf categories n st (t, w))) = commit_calls st
        \<and> committed (snd (process_transaction pf categories n st (t, w))) = committed st)"
proof -
  let ?loop = "process_transactions pf categories n st"
  have stop: "cancelled (?loop (before @ [(t, w)])) \<longrightarrow>
      effects (?loop (before @ (t, w) # later)) = effects (?loop (before @ [(t, w)]))"
    using rest_ignored [of pf categories n st "before @ [(t, w)]" later] by simp
  have sets: "\<not> cancelled (?loop before)
        \<and> (cancel_during_llm w \<or> cancel_during_dialog w \<or> action w = CancelModal) \<longrightarrow>
      cancelled (?loop (before @ [(t, w)]))"
  proof
    assume a: "\<not> cancelled (?loop before)
        \<and> (cancel_during_llm w \<or> cancel_during_dialog w \<or> action w = CancelModal)"
    obtain fl st' where s: "process_transaction pf categories n (?loop before) (t, w) = (fl, st')"
      by (cases "process_transaction pf categories n (?loop before) (t, w)")
    from turn_frame [OF s] a have "fl = Break" "cancelled st'" by blast+
    with s a loop_append [of pf categories n st before "[(t, w)]"]
    show "cancelled (?loop (before @ [(t, w)]))" by simp
  qed
  have kept: "prefix (committed (?loop before)) (committed (?loop (before @ later)))"
  proof (cases "cancelled (?loop before)")
    case True
    from rest_ignored [OF True, of later] show ?thesis by (simp add: effects_def)
  next
    case False
    from loop_append [OF False, of later] commits_kept [of "?loop before" pf categories n later]
    show ?thesis by simp
  qed
  have top: "cancelled st \<longrightarrow>
        process_transaction pf categories n st (t, w) = (Break, log_line Warn CancelledByUser st)"
    by (simp add: turn_when_cancelled)
  have pre: "cancelled st \<longrightarrow>
        chooseCategoryOptions pf w (id_tx t) st = (Inl (Error ''Operation cancelled''), st)"
    by (simp add: chooseCategoryOptions_def)
  have post: "\<not> cancelled st \<and> cancel_during_llm w \<and> llm w = Reply content \<longrightarrow>
        fst (chooseCategoryOptions pf w (id_tx t) st) = Inl (Error ''Operation cancelled'')"
    by (simp add: chooseCategoryOptions_def Let_def)
  have commit: "\<not> cancelled st
        \<and> (cancel_during_llm w \<or> cancel_during_dialog w \<or> action w = CancelModal) \<longrightarrow>
        fst (process_transaction pf categories n st (t, w)) = Break
        \<and> commit_calls (snd (process_transaction pf categories n st (t, w))) = commit_calls st
        \<and> committed (snd (process_transaction pf categories n st (t, w))) = committed st"
  proof
    assume a: "\<not> cancelled st
        \<and> (cancel_during_llm w \<or> cancel_during_dialog w \<or> action w = CancelModal)"
    obtain fl st' where s: "process_transaction pf categories n st (t, w) = (fl, st')"
      by (cases "process_transaction pf categories n st (t, w)")
    from turn_frame [OF s] a s
    show "fst (process_transaction pf categories n st (t, w)) = Break
        \<and> commit_calls (snd (process_transaction pf categories n st (t, w))) = commit_calls st
        \<and> committed (snd (process_transaction pf categories n st (t, w))) = committed st"
      by simp
  qed
  from stop sets kept top pre post commit show ?thesis by blast
qed

theorem cancellation_stops_the_batch_witness:
  "effects (process_transactions engine [groceries, gas_transportation] 3 initial_state
      [(sample_tx 101, accepting), (sample_tx 102, cancelling), (sample_tx 103, accepting)])
     = ([101, 102], [101, 102], [(101, 1)], [(101, 1)])
   \<and> committed (process_transactions engine [groceries, gas_transportation] 3 initial_state
        [(sample_tx 101, accepting)]) = [(101, 1)]
   \<and> effects (process_transactions engine [groceries, gas_transportation] 3 initial_state
        [(sample_tx 101, accepting), (sample_tx 102, accepting), (sample_tx 103, accepting)])
     = ([101, 102, 103], [101, 102, 103], [(101, 1), (102, 1), (103, 1)],
        [(101, 1), (102, 1), (103, 1)])
   \<and> process_transaction engine [groceries] 3 (initial_state\<lparr>cancelled := True\<rparr>)
        (sample_tx 101, accepting)
     = (Break, log_line Warn CancelledByUser (initial_state\<lparr>cancelled := True\<rparr>))
   \<and> chooseCategoryOptions engine accepting 101 (initial_state\<lparr>cancelled := True\<rparr>)
     = (Inl (Error ''Operation cancelled''), initial_state\<lparr>cancelled := True\<rparr>)
   \<and> fst (chooseCategoryOptions engine (accepting\<lparr>cancel_during_llm := True\<rparr>) 101
          initial_state)
     = Inl (Error ''Operation cancelled'')
   \<and> fst (process_transaction engine [groceries] 3 initial_state (sample_tx 101, cancelling))
     = Break
   \<and> commit_calls (snd (process_transaction engine [groceries] 3 initial_state
          (sample_tx 101, cancelling))) = []"
proof -
  let ?loop = "process_transactions engine [groceries, gas_transportation] 3 initial_state"
  let ?off = "initial_state\<lparr>cancelled := True\<rparr>"
  have one: "\<not> cancelled (?loop [(sample_tx 101, accepting)])"
    by code_simp
  have c: "cancel_during_dialog cancelling"
    by (simp add: cancelling_def)
  note t = cancellation_stops_the_batch [of engine "[groceries, gas_transportation]" 3
      initial_state "[(sample_tx 101, accepting)]" "sample_tx 102" cancelling
      "[(sample_tx 103, accepting)]"]
  from t one c
  have two: "cancelled (?loop ([(sample_tx 101, accepting)] @ [(sample_tx 102, cancelling)]))"
    by blast
  with t have "effects (?loop ([(sample_tx 101, accepting)]
          @ (sample_tx 102, cancelling) # [(sample_tx 103, accepting)]))
      = effects (?loop ([(sample_tx 101, accepting)] @ [(sample_tx 102, cancelling)]))"
    by blast
  moreover have "effects (?loop [(sample_tx 101, accepting), (sample_tx 102, cancelling)])
      = ([101, 102], [101, 102], [(101, 1)], [(101, 1)])"
    by code_simp
  ultimately have a: "effects (?loop [(sample_tx 101, accepting), (sample_tx 102, cancelling),
        (sample_tx 103, accepting)])
     = ([101, 102], [101, 102], [(101, 1)], [(101, 1)])"
    by simp
  have b: "committed (?loop [(sample_tx 101, accepting)]) = [(101, 1)]"
    by code_simp
  have d: "effects (?loop [(sample_tx 101, accepting), (sample_tx 102, accepting),
        (sample_tx 103, accepting)])
     = ([101, 102, 103], [101, 102, 103], [(101, 1), (102, 1), (103, 1)],
        [(101, 1), (102, 1), (103, 1)])"
    by code_simp
  have off: "cancelled ?off"
    by simp
  note u = cancellation_stops_the_batch [of engine "[groceries]" 3 ?off "[]"
      "sample_tx 101" accepting "[]"]
  from u off have e: "process_transaction engine [groceries] 3 ?off (sample_tx 101, accepting)
     = (Break, log_line Warn CancelledByUser ?off)"
    by blast
  have i: "id_tx (sample_tx 101) = 101"
    by (simp add: sample_tx_def)
  from u off i have f: "chooseCategoryOptions engine accepting 101 ?off
     = (Inl (Error ''Operation cancelled''), ?off)"
    by simp
  have on: "\<not> cancelled initial_state"
    by (simp add: initial_state_def)
  have l: "cancel_during_llm (accepting\<lparr>cancel_during_llm := True\<rparr>)
      \<and> llm (accepting\<lparr>cancel_during_llm := True\<rparr>)
          = Reply (Text ''{\"suggestions\":[{\"name\":\"Groceries\",\"confidence\":0.9}]}'')"
    by (simp add: accepting_def groceries_reply_def)
  from cancellation_stops_the_batch [of engine "[groceries]" 3 initial_state "[]"
      "sample_tx 101" "accepting\<lparr>cancel_during_llm := True\<rparr>" "[]"
      "Text ''{\"suggestions\":[{\"name\":\"Groceries\",\"confidence\":0.9}]}''"] on l i
  have g: "fst (chooseCategoryOptions engine (accepting\<lparr>cancel_during_llm := True\<rparr>) 101
          initial_state) = Inl (Error ''Operation cancelled'')"
    by simp
  have z: "commit_calls initial_state = []"
    by (simp add: initial_state_def)
  from cancellation_stops_the_batch [of engine "[groceries]" 3 initial_state "[]"
      "sample_tx 101" cancelling "[]"] on c z
  have h: "fst (process_transaction engine [groceries] 3 initial_state
          (sample_tx 101, cancelling)) = Break
      \<and> commit_calls (snd (process_transaction engine [groceries] 3 initial_state
          (sample_tx 101, cancelling))) = []"
    by simp
  from a b d e f g h show ?thesis by blast
qed

text \<open>
  The exception of the unguarded parse is caught by the caller and shown to the user as
  an error of the provider.
\<close>

lemma syntax_error_reaches_the_log:
  "log_lines (process_transactions engine [groceries] 1 initial_state
      [(sample_tx 101, babbling)])
     = [(Info, Suggesting 101), (Err, ErrorGettingSuggestions SyntaxError),
        (Warn, SkippedTx 101)]"
  by code_simp

text \<open>The last line of a run, and the transactions a run works on.\<close>

lemma run_batch_finished:
  "log_lines (run_batch pf categories txs)
     = (let st = process_transactions pf categories (length txs) initial_state txs
        in if cancelled st then log_lines st else log_lines st @ [(Info, Finished)])"
  by (simp add: run_batch_def Let_def)

lemma getTransactions_eligible:
  "set (getTransactions (Some fetched))
     = {t \<in> set fetched. \<not> is_group_tx t \<and> category_id_tx t = None}"
  by (auto simp: getTransactions_def)

end
